theory Spec2Isabelle
  imports Main
begin

section \<open>The launcher of the desktop wallet (core/launcher.cpp)\<close>

text \<open>
  A shallow embedding of \<^verbatim>\<open>Wallet/SourceFiles/core/launcher.cpp\<close>. Every member
  function of \<^verbatim>\<open>Core::Launcher\<close> that decides a path or reads the arguments is a
  HOL function over an explicit launcher state; the file system the C++ code
  talks to through Qt is an explicit value that is passed in and returned.
  Anything the C++ code can do besides returning (a failed \<^verbatim>\<open>Expects\<close>, a read
  past the end of \<^verbatim>\<open>argv\<close>, a signed overflow, a function body that ends
  without \<^verbatim>\<open>return\<close>) is a value of type \<open>fault\<close>.
\<close>

subsection \<open>Strings, faults, build configuration\<close>

type_synonym QString = string

datatype fault =
  ExpectsFailed      \<comment> \<open>\<^verbatim>\<open>Expects(...)\<close> does not hold: the process is terminated\<close>
| OutOfBounds        \<comment> \<open>a read or write outside an array\<close>
| SignedOverflow     \<comment> \<open>\<^verbatim>\<open>++\<close> on an \<^verbatim>\<open>int\<close> that holds its largest value\<close>
| NoReturn           \<comment> \<open>the end of a non-void function is reached\<close>

text \<open>
  The preprocessor symbols that \<^verbatim>\<open>computeWorkingPathBase\<close> tests. \<^verbatim>\<open>_DEBUG\<close>
  is written \<open>DEBUG\<close>, since a name cannot start with an underscore.
\<close>

record build_config =
  Q_OS_MAC :: bool
  Q_OS_LINUX :: bool
  OS_WIN_STORE :: bool
  Q_OS_WIN :: bool
  DEBUG :: bool
  OS_MAC_STORE :: bool

subsection \<open>The launcher object\<close>

text \<open>
  Modelled from the spec: the class declaration (core/launcher.h) is not among
  the sources. The members are the ones the member functions of launcher.cpp
  read and write, which are the parts of the spec's launch context (executable
  directory, executable name, app-data directory, working directory, argument
  list, opened resource) and the raw \<^verbatim>\<open>argc\<close> and \<^verbatim>\<open>argv\<close>. Every \<^verbatim>\<open>QString\<close>
  member starts empty, as a default-constructed \<^verbatim>\<open>QString\<close> is and as the spec
  says of an executable path that is left empty; the opened resource is unset
  when it is empty. \<open>argv\<close> is the array of C strings; its length is the number
  of entries that may be read.
\<close>

record Launcher =
  argc :: int
  argv :: "string list"
  arguments :: "QString list"
  executablePath :: QString
  executableName :: QString
  appDataPath :: QString
  workingPath :: QString
  openedUrl :: QString

definition Create :: "int \<Rightarrow> string list \<Rightarrow> Launcher" where
  "Create argc0 argv0 =
     \<lparr> argc = argc0, argv = argv0, arguments = [],
       executablePath = [], executableName = [], appDataPath = [],
       workingPath = [], openedUrl = [] \<rparr>"

subsection \<open>FilteredCommandLineArguments\<close>

definition kForwardArgumentCount :: int where
  "kForwardArgumentCount = 1"

text \<open>\<^verbatim>\<open>std::clamp(v, lo, hi)\<close>: \<open>lo\<close> if \<open>v < lo\<close>, \<open>hi\<close> if \<open>hi < v\<close>, else \<open>v\<close>.\<close>

definition std_clamp :: "int \<Rightarrow> int \<Rightarrow> int \<Rightarrow> int" where
  "std_clamp v lo hi = (if v < lo then lo else if hi < v then hi else v)"

text \<open>
  \<open>fc_count\<close> is \<^verbatim>\<open>_count\<close>; \<open>fc_arguments\<close> is the array \<^verbatim>\<open>_arguments\<close> of
  \<^verbatim>\<open>kForwardArgumentCount + 1\<close> pointers, \<open>None\<close> being \<^verbatim>\<open>nullptr\<close>.
\<close>

record FilteredCommandLineArguments =
  fc_count :: int
  fc_arguments :: "string option list"

text \<open>
  The loop \<^verbatim>\<open>for (auto i = 0; i != _count; ++i) _arguments[i] = argv[i];\<close>.
  With \<open>i\<close> above \<open>count\<close> the C++ loop would count up to the overflow of \<open>i\<close>.
\<close>

function copy_arguments ::
  "int \<Rightarrow> int \<Rightarrow> string list \<Rightarrow> string option list \<Rightarrow> fault + string option list" where
  "copy_arguments i cnt argv0 arr =
     (if i = cnt then Inr arr
      else if cnt < i then Inl SignedOverflow
      else if i < 0 \<or> length argv0 \<le> nat i \<or> length arr \<le> nat i then Inl OutOfBounds
      else copy_arguments (i + 1) cnt argv0 (arr[nat i := Some (argv0 ! nat i)]))"
  by pat_completeness auto
termination
  by (relation "measure (\<lambda>(i, cnt, argv0, arr). nat (cnt - i))") auto

declare copy_arguments.simps [simp del]

definition FilteredCommandLineArguments ::
  "int \<Rightarrow> string list \<Rightarrow> fault + FilteredCommandLineArguments" where
  "FilteredCommandLineArguments argc0 argv0 =
     (let count0 = std_clamp argc0 0 kForwardArgumentCount in
      case copy_arguments 0 count0 argv0 (replicate (nat (kForwardArgumentCount + 1)) None) of
        Inl e \<Rightarrow> Inl e
      | Inr arr \<Rightarrow> Inr \<lparr> fc_count = count0, fc_arguments = arr \<rparr>)"

subsection \<open>processArguments\<close>

text \<open>
  The range-for of \<^verbatim>\<open>processArguments\<close>, with the local \<^verbatim>\<open>nextUrl\<close> and the
  member \<^verbatim>\<open>_openedUrl\<close> as the loop state.
\<close>

fun processArguments_loop :: "bool \<Rightarrow> QString \<Rightarrow> QString list \<Rightarrow> QString" where
  "processArguments_loop nextUrl url [] = url"
| "processArguments_loop nextUrl url (argument # rest) =
     (if nextUrl then processArguments_loop nextUrl argument rest
      else if argument = ''--'' then processArguments_loop True url rest
      else processArguments_loop nextUrl url rest)"

definition processArguments :: "Launcher \<Rightarrow> Launcher" where
  "processArguments L = L\<lparr> openedUrl := processArguments_loop False (openedUrl L) (arguments L) \<rparr>"

subsection \<open>The environment: platform queries and the file system\<close>

text \<open>
  The functions of Qt and of the base library that launcher.cpp calls and that
  only compute a value are parameters: nothing is assumed about what they return.
  \<^item> \<open>CurrentExecutablePath\<close>: \<^verbatim>\<open>base::Platform::CurrentExecutablePath(argc, argv)\<close>
  \<^item> \<open>FromUtf8Safe\<close>: \<^verbatim>\<open>base::FromUtf8Safe\<close>
  \<^item> \<open>isSymLink\<close>, \<open>symLinkTarget\<close>, \<open>fileName\<close>: the members of \<^verbatim>\<open>QFileInfo\<close>,
    as functions of the path the \<^verbatim>\<open>QFileInfo\<close> was made from
  \<^item> \<open>absoluteDir_absolutePath\<close>: \<^verbatim>\<open>QFileInfo(p).absoluteDir().absolutePath()\<close>
  \<^item> \<open>writableLocation_AppData\<close>:
    \<^verbatim>\<open>QStandardPaths::writableLocation(QStandardPaths::AppDataLocation)\<close>
  \<^item> \<open>QDir_absolutePath\<close>: \<^verbatim>\<open>QDir(p).absolutePath()\<close>
\<close>

record platform =
  CurrentExecutablePath :: "int \<Rightarrow> string list \<Rightarrow> QString"
  FromUtf8Safe :: "string \<Rightarrow> QString"
  isSymLink :: "QString \<Rightarrow> bool"
  symLinkTarget :: "QString \<Rightarrow> QString"
  fileName :: "QString \<Rightarrow> QString"
  absoluteDir_absolutePath :: "QString \<Rightarrow> QString"
  writableLocation_AppData :: QString
  QDir_absolutePath :: "QString \<Rightarrow> QString"

text \<open>
  The file system is a state. \<open>dirs\<close> are the paths that name a directory,
  \<open>files\<close> the paths that name anything else that exists. Three rights, each
  granted or denied on its own: \<open>may_create p\<close>, the process may create the
  directory entry \<open>p\<close>; \<open>may_remove p\<close>, it may delete the entry \<open>p\<close>;
  \<open>may_write p\<close>, an existing file \<open>p\<close> may be opened for writing.
\<close>

record filesystem =
  dirs :: "QString set"
  files :: "QString set"
  may_create :: "QString \<Rightarrow> bool"
  may_remove :: "QString \<Rightarrow> bool"
  may_write :: "QString \<Rightarrow> bool"

text \<open>\<^verbatim>\<open>QDir(p).exists()\<close>\<close>

definition QDir_exists :: "filesystem \<Rightarrow> QString \<Rightarrow> bool" where
  "QDir_exists fs p = (p \<in> dirs fs)"

text \<open>\<^verbatim>\<open>QFileInfo(p).exists()\<close> and \<^verbatim>\<open>QFile(p).exists()\<close>\<close>

definition QFileInfo_exists :: "filesystem \<Rightarrow> QString \<Rightarrow> bool" where
  "QFileInfo_exists fs p = (p \<in> dirs fs \<or> p \<in> files fs)"

definition QFile_exists :: "filesystem \<Rightarrow> QString \<Rightarrow> bool" where
  "QFile_exists fs p = QFileInfo_exists fs p"

text \<open>
  \<^verbatim>\<open>QDir().mkpath(p)\<close>: true if the directory is there afterwards. The code
  calls it for \<^verbatim>\<open>_executablePath + "data"\<close> only, whose parent is the directory
  of the running executable (or the current directory), so the model creates
  the one directory asked for.
\<close>

definition QDir_mkpath :: "filesystem \<Rightarrow> QString \<Rightarrow> bool \<times> filesystem" where
  "QDir_mkpath fs p =
     (if p \<in> dirs fs then (True, fs)
      else if p \<in> files fs \<or> \<not> may_create fs p then (False, fs)
      else (True, fs\<lparr> dirs := insert p (dirs fs) \<rparr>))"

text \<open>
  \<^verbatim>\<open>QFile(p).open(QIODevice::WriteOnly)\<close>: an existing file is opened (and
  truncated) if it may be written; a missing one is created if that is
  permitted; a directory cannot be opened.
\<close>

definition QFile_open_WriteOnly :: "filesystem \<Rightarrow> QString \<Rightarrow> bool \<times> filesystem" where
  "QFile_open_WriteOnly fs p =
     (if p \<in> dirs fs then (False, fs)
      else if p \<in> files fs then (may_write fs p, fs)
      else if may_create fs p then (True, fs\<lparr> files := insert p (files fs) \<rparr>)
      else (False, fs))"

text \<open>\<^verbatim>\<open>file.close()\<close> changes nothing that is modelled.\<close>

definition QFile_close :: "filesystem \<Rightarrow> QString \<Rightarrow> filesystem" where
  "QFile_close fs p = fs"

text \<open>
  \<^verbatim>\<open>file.remove()\<close>: the file is deleted if that is permitted, and stays
  otherwise; the code ignores whether it succeeded.
\<close>

definition QFile_remove :: "filesystem \<Rightarrow> QString \<Rightarrow> filesystem" where
  "QFile_remove fs p =
     (if p \<in> files fs \<and> may_remove fs p then fs\<lparr> files := files fs - {p} \<rparr> else fs)"

text \<open>\<^verbatim>\<open>QString::endsWith(QChar)\<close>\<close>

definition endsWith :: "QString \<Rightarrow> char \<Rightarrow> bool" where
  "endsWith s c = (s \<noteq> [] \<and> last s = c)"

text \<open>\<^verbatim>\<open>QString::number(int)\<close>: the decimal digits, with a minus sign below zero.\<close>

fun number_digits :: "nat \<Rightarrow> string" where
  "number_digits n =
     (if n < 10 then [''0123456789'' ! n]
      else number_digits (n div 10) @ [''0123456789'' ! (n mod 10)])"

definition QString_number :: "int \<Rightarrow> QString" where
  "QString_number i =
     (if i < 0 then CHR ''-'' # number_digits (nat (- i)) else number_digits (nat i))"

text \<open>\<^verbatim>\<open>std::numeric_limits<int>::max()\<close> for the 32-bit \<^verbatim>\<open>int\<close> of every target.\<close>

definition INT_MAX :: int where
  "INT_MAX = 2147483647"

declare number_digits.simps [simp del]

subsection \<open>readArguments\<close>

text \<open>
  The loop \<^verbatim>\<open>for (auto i = 0; i != argc; ++i) result.push_back(FromUtf8Safe(argv[i]));\<close>
\<close>

function readArguments_loop ::
  "platform \<Rightarrow> int \<Rightarrow> int \<Rightarrow> string list \<Rightarrow> QString list \<Rightarrow> fault + QString list" where
  "readArguments_loop P i argc0 argv0 result =
     (if i = argc0 then Inr result
      else if argc0 < i then Inl SignedOverflow
      else if i < 0 \<or> length argv0 \<le> nat i then Inl OutOfBounds
      else readArguments_loop P (i + 1) argc0 argv0 (result @ [FromUtf8Safe P (argv0 ! nat i)]))"
  by pat_completeness auto
termination
  by (relation "measure (\<lambda>(P, i, argc0, argv0, result). nat (argc0 - i))") auto

declare readArguments_loop.simps [simp del]

definition readArguments :: "platform \<Rightarrow> int \<Rightarrow> string list \<Rightarrow> fault + QString list" where
  "readArguments P argc0 argv0 =
     (if \<not> 0 \<le> argc0 then Inl ExpectsFailed
      else readArguments_loop P 0 argc0 argv0 [])"

subsection \<open>Executable path and app-data path\<close>

definition initExecutablePath :: "platform \<Rightarrow> filesystem \<Rightarrow> Launcher \<Rightarrow> Launcher" where
  "initExecutablePath P fs L =
     (let path = CurrentExecutablePath P (argc L) (argv L) in
      if path = [] then L
      else
        let info = (if isSymLink P path then symLinkTarget P path else path) in
        if \<not> QFileInfo_exists fs info then L
        else
          let dir = absoluteDir_absolutePath P info in
          L\<lparr> executablePath := (if endsWith dir CHR ''/'' then dir else dir @ ''/''),
             executableName := fileName P info \<rparr>)"

definition initAppDataPath :: "platform \<Rightarrow> Launcher \<Rightarrow> Launcher" where
  "initAppDataPath P L =
     (let path = writableLocation_AppData P;
          absolute = QDir_absolutePath P path
      in L\<lparr> appDataPath := (if endsWith absolute CHR ''/'' then absolute else absolute @ ''/'') \<rparr>)"

definition prepareSettings :: "platform \<Rightarrow> filesystem \<Rightarrow> Launcher \<Rightarrow> Launcher" where
  "prepareSettings P fs L = processArguments (initAppDataPath P (initExecutablePath P fs L))"

subsection \<open>The working path\<close>

definition checkPortablePath :: "filesystem \<Rightarrow> Launcher \<Rightarrow> QString" where
  "checkPortablePath fs L =
     (let portable = executablePath L @ ''WalletForcePortable'' in
      if QDir_exists fs portable then portable @ ''/'' else [])"

text \<open>
  The \<^verbatim>\<open>while (true)\<close> of \<^verbatim>\<open>canWorkInExecutablePath\<close>, from the value \<open>index\<close>
  of the counter before \<^verbatim>\<open>++index\<close>. The result carries the file system and
  the counter as they are when the loop returns.
\<close>

function probe_loop ::
  "QString \<Rightarrow> filesystem \<Rightarrow> int \<Rightarrow> fault + (bool \<times> filesystem \<times> int)" where
  "probe_loop dataPath fs index =
     (if INT_MAX \<le> index then Inl SignedOverflow
      else
        let index1 = index + 1;
            temp = dataPath @ ''/temp'' @ QString_number index1;
            opened = QFile_open_WriteOnly fs temp
        in
          if fst opened then Inr (True, QFile_remove (QFile_close (snd opened) temp) temp, index1)
          else if \<not> QFile_exists (snd opened) temp then Inr (False, snd opened, index1)
          else if index1 = INT_MAX then Inr (False, snd opened, index1)
          else probe_loop dataPath (snd opened) index1)"
  by pat_completeness auto
termination
  by (relation "measure (\<lambda>(dataPath, fs, index). nat (INT_MAX - index))") auto

declare probe_loop.simps [simp del]

text \<open>
  The first condition of \<^verbatim>\<open>canWorkInExecutablePath\<close>,
  \<^verbatim>\<open>!QDir(dataPath).exists() && !QDir().mkpath(dataPath)\<close>, with the file system
  it leaves; \<^verbatim>\<open>mkpath\<close> is called only if the directory does not exist.
\<close>

definition dataPath_missing :: "filesystem \<Rightarrow> QString \<Rightarrow> bool \<times> filesystem" where
  "dataPath_missing fs dataPath =
     (if \<not> QDir_exists fs dataPath
      then (let made = QDir_mkpath fs dataPath in (\<not> fst made, snd made))
      else (False, fs))"

definition canWorkInExecutablePath ::
  "filesystem \<Rightarrow> Launcher \<Rightarrow> fault + (bool \<times> filesystem)" where
  "canWorkInExecutablePath fs L =
     (let dataPath = executablePath L @ ''data'';
          missing = dataPath_missing fs dataPath
      in
        if fst missing then Inr (False, snd missing)
        else if QFileInfo_exists (snd missing) (dataPath @ ''/salt'') then Inr (True, snd missing)
        else
          (case probe_loop dataPath (snd missing) 0 of
             Inl e \<Rightarrow> Inl e
           | Inr (r, fs', index) \<Rightarrow> Inr (r, fs')))"

text \<open>
  \<^verbatim>\<open>computeWorkingPathBase\<close>: the conditional compilation is a test of the
  build configuration. With none of the operating-system symbols defined the
  function body ends after the portable check.
\<close>

definition computeWorkingPathBase ::
  "build_config \<Rightarrow> filesystem \<Rightarrow> Launcher \<Rightarrow> fault + (QString \<times> filesystem)" where
  "computeWorkingPathBase cfg fs L =
     (let path = checkPortablePath fs L in
      if path \<noteq> [] then Inr (path, fs)
      else if Q_OS_MAC cfg \<or> Q_OS_LINUX cfg then
        (if DEBUG cfg \<and> \<not> OS_MAC_STORE cfg then Inr (executablePath L, fs)
         else Inr (appDataPath L, fs))
      else if OS_WIN_STORE cfg then
        (if DEBUG cfg then Inr (executablePath L, fs)
         else Inr (appDataPath L, fs))
      else if Q_OS_WIN cfg then
        (case canWorkInExecutablePath fs L of
           Inl e \<Rightarrow> Inl e
         | Inr (ok, fs') \<Rightarrow>
             if ok then Inr (executablePath L, fs') else Inr (appDataPath L, fs'))
      else Inl NoReturn)"

definition initWorkingPath ::
  "build_config \<Rightarrow> filesystem \<Rightarrow> Launcher \<Rightarrow> fault + (Launcher \<times> filesystem)" where
  "initWorkingPath cfg fs L =
     (case computeWorkingPathBase cfg fs L of
        Inl e \<Rightarrow> Inl e
      | Inr (base, fs') \<Rightarrow> Inr (L\<lparr> workingPath := base @ ''data/'' \<rparr>, fs'))"

text \<open>
  \<^verbatim>\<open>init\<close>. The calls that configure the Qt application object
  (\<^verbatim>\<open>setApplicationName\<close>, \<^verbatim>\<open>setAttribute\<close>, \<^verbatim>\<open>DisableCustomScaling\<close>) touch
  neither the launcher nor the file system.
\<close>

definition init ::
  "build_config \<Rightarrow> platform \<Rightarrow> filesystem \<Rightarrow> Launcher \<Rightarrow> fault + (Launcher \<times> filesystem)" where
  "init cfg P fs L =
     (case readArguments P (argc L) (argv L) of
        Inl e \<Rightarrow> Inl e
      | Inr args \<Rightarrow>
          initWorkingPath cfg fs (prepareSettings P fs (L\<lparr> arguments := args \<rparr>)))"

text \<open>
  \<^verbatim>\<open>executeApplication\<close>, up to the arguments it hands to the sandbox:
  \<^verbatim>\<open>FilteredCommandLineArguments arguments(_argc, _argv)\<close>.
\<close>

definition executeApplication :: "Launcher \<Rightarrow> fault + FilteredCommandLineArguments" where
  "executeApplication L = FilteredCommandLineArguments (argc L) (argv L)"

subsection \<open>Example configurations, file systems and launchers\<close>

definition windows_release :: build_config where
  "windows_release =
     \<lparr> Q_OS_MAC = False, Q_OS_LINUX = False, OS_WIN_STORE = False, Q_OS_WIN = True,
       DEBUG = False, OS_MAC_STORE = False \<rparr>"

definition linux_debug :: build_config where
  "linux_debug =
     \<lparr> Q_OS_MAC = False, Q_OS_LINUX = True, OS_WIN_STORE = False, Q_OS_WIN = False,
       DEBUG = True, OS_MAC_STORE = False \<rparr>"

definition linux_release :: build_config where
  "linux_release =
     \<lparr> Q_OS_MAC = False, Q_OS_LINUX = True, OS_WIN_STORE = False, Q_OS_WIN = False,
       DEBUG = False, OS_MAC_STORE = False \<rparr>"

definition mac_store_debug :: build_config where
  "mac_store_debug =
     \<lparr> Q_OS_MAC = True, Q_OS_LINUX = False, OS_WIN_STORE = False, Q_OS_WIN = False,
       DEBUG = True, OS_MAC_STORE = True \<rparr>"

definition mac_store_release :: build_config where
  "mac_store_release =
     \<lparr> Q_OS_MAC = True, Q_OS_LINUX = False, OS_WIN_STORE = False, Q_OS_WIN = False,
       DEBUG = False, OS_MAC_STORE = True \<rparr>"

text \<open>A launcher whose paths are resolved: the executable is \<^verbatim>\<open>/app/Wallet\<close>.\<close>

definition app_launcher :: Launcher where
  "app_launcher =
     \<lparr> argc = 1, argv = [''Wallet''], arguments = [''Wallet''],
       executablePath = ''/app/'', executableName = ''Wallet'', appDataPath = ''/home/'',
       workingPath = [], openedUrl = [] \<rparr>"

text \<open>An installation without a data directory, where everything is permitted.\<close>

definition plain_fs :: filesystem where
  "plain_fs =
     \<lparr> dirs = {''/app'', ''/home''}, files = {''/app/Wallet''},
       may_create = (\<lambda>p. True), may_remove = (\<lambda>p. True),
       may_write = (\<lambda>p. True) \<rparr>"

text \<open>A read-only installation with the portable marker directory.\<close>

definition portable_fs :: filesystem where
  "portable_fs =
     \<lparr> dirs = {''/app'', ''/app/WalletForcePortable'', ''/home''}, files = {''/app/Wallet''},
       may_create = (\<lambda>p. False), may_remove = (\<lambda>p. False),
       may_write = (\<lambda>p. False) \<rparr>"

text \<open>A read-only data directory that holds the sentinel file.\<close>

definition salted_fs :: filesystem where
  "salted_fs =
     \<lparr> dirs = {''/app'', ''/app/data'', ''/home''}, files = {''/app/Wallet'', ''/app/data/salt''},
       may_create = (\<lambda>p. False), may_remove = (\<lambda>p. False),
       may_write = (\<lambda>p. False) \<rparr>"

text \<open>A writable data directory in which a writable file \<^verbatim>\<open>temp1\<close> is already there.\<close>

definition stale_fs :: filesystem where
  "stale_fs =
     \<lparr> dirs = {''/app'', ''/app/data'', ''/home''}, files = {''/app/Wallet'', ''/app/data/temp1''},
       may_create = (\<lambda>p. True), may_remove = (\<lambda>p. True),
       may_write = (\<lambda>p. True) \<rparr>"

text \<open>
  A data directory in which files may be created but not deleted.
\<close>

definition undeletable_fs :: filesystem where
  "undeletable_fs =
     \<lparr> dirs = {''/app'', ''/app/data'', ''/home''}, files = {''/app/Wallet''},
       may_create = (\<lambda>p. True), may_remove = (\<lambda>p. False),
       may_write = (\<lambda>p. True) \<rparr>"

text \<open>
  A data directory in which nothing may be created, with a file \<^verbatim>\<open>temp1\<close> that
  may be written and deleted.
\<close>

definition uncreatable_fs :: filesystem where
  "uncreatable_fs =
     \<lparr> dirs = {''/app'', ''/app/data'', ''/home''}, files = {''/app/Wallet'', ''/app/data/temp1''},
       may_create = (\<lambda>p. False), may_remove = (\<lambda>p. True),
       may_write = (\<lambda>p. True) \<rparr>"

text \<open>
  A data directory in which every name that starts with \<^verbatim>\<open>temp\<close> is taken by a
  file that cannot be opened for writing.
\<close>

definition crowded_fs :: filesystem where
  "crowded_fs =
     \<lparr> dirs = {''/app'', ''/app/data'', ''/home''},
       files = {p. take 14 p = ''/app/data/temp''},
       may_create = (\<lambda>p. True), may_remove = (\<lambda>p. True),
       may_write = (\<lambda>p. False) \<rparr>"

text \<open>
  A platform on which the running binary has been deleted: the path reported
  for it names nothing.
\<close>

definition deleted_platform :: platform where
  "deleted_platform =
     \<lparr> CurrentExecutablePath = (\<lambda>c v. ''/app/Wallet (deleted)''),
       FromUtf8Safe = (\<lambda>s. s),
       isSymLink = (\<lambda>p. False),
       symLinkTarget = (\<lambda>p. p),
       fileName = (\<lambda>p. rev (takeWhile (\<lambda>c. c \<noteq> CHR ''/'') (rev p))),
       absoluteDir_absolutePath = (\<lambda>p. rev (tl (dropWhile (\<lambda>c. c \<noteq> CHR ''/'') (rev p)))),
       writableLocation_AppData = ''/home'',
       QDir_absolutePath = (\<lambda>p. p) \<rparr>"



section \<open>Argument handling\<close>

subsection \<open>The opened URL\<close>

lemma processArguments_loop_True:
  "processArguments_loop True url xs = (if xs = [] then url else last xs)"
  by (induction xs arbitrary: url) auto

lemma processArguments_loop_False:
  "processArguments_loop False url xs =
     (case dropWhile (\<lambda>a. a \<noteq> ''--'') xs of
        [] \<Rightarrow> url
      | delimiter # rest \<Rightarrow> if rest = [] then url else last rest)"
  by (induction xs) (simp_all add: processArguments_loop_True)

lemma processArguments_loop_split:
  "''--'' \<notin> set before \<Longrightarrow>
   processArguments_loop False url (before @ ''--'' # rest) = processArguments_loop True url rest"
  by (induction before) auto

lemma dropWhile_no_delimiter:
  "''--'' \<notin> set args \<Longrightarrow> dropWhile (\<lambda>a. a \<noteq> ''--'') args = []"
  by (induction args) auto

text \<open>
  C4. \<open>dropWhile (\<lambda>a. a \<noteq> ''--'')\<close> cuts the argument list at the first \<^verbatim>\<open>--\<close>.
  If there is none, or nothing follows it, \<^verbatim>\<open>_openedUrl\<close> keeps the value it had
  (empty, in a launcher made by \<open>Create\<close>); otherwise it is the last argument
  after that first \<^verbatim>\<open>--\<close>. In particular, without any \<^verbatim>\<open>--\<close> among the
  arguments the opened URL of a new launcher stays empty.
\<close>

theorem processArguments_openedUrl:
  "openedUrl (processArguments L) =
     (case dropWhile (\<lambda>a. a \<noteq> ''--'') (arguments L) of
        [] \<Rightarrow> openedUrl L
      | delimiter # rest \<Rightarrow> if rest = [] then openedUrl L else last rest)
   \<and> openedUrl (processArguments ((Create c v)\<lparr> arguments := args \<rparr>)) =
     (case dropWhile (\<lambda>a. a \<noteq> ''--'') args of
        [] \<Rightarrow> []
      | delimiter # rest \<Rightarrow> if rest = [] then [] else last rest)
   \<and> (''--'' \<notin> set args \<longrightarrow>
        openedUrl (processArguments ((Create c v)\<lparr> arguments := args \<rparr>)) = [])"
  by (simp add: processArguments_def processArguments_loop_False dropWhile_no_delimiter
        Create_def)

theorem processArguments_openedUrl_witness:
  "openedUrl (processArguments ((Create 4 [''app'', ''--'', ''first'', ''second''])
      \<lparr> arguments := [''app'', ''--'', ''first'', ''second''] \<rparr>)) = ''second''
   \<and> ''--'' \<notin> set [''app'', ''first'']
   \<and> openedUrl (processArguments ((Create 2 [''app'', ''first''])
      \<lparr> arguments := [''app'', ''first''] \<rparr>)) = []"
  using processArguments_openedUrl
      [where L = "(Create 4 [''app'', ''--'', ''first'', ''second''])
         \<lparr> arguments := [''app'', ''--'', ''first'', ''second''] \<rparr>"]
    processArguments_openedUrl
      [where c = 2 and v = "[''app'', ''first'']" and args = "[''app'', ''first'']"]
  by (simp add: Create_def)

text \<open>
  C10. Only the first \<^verbatim>\<open>--\<close> is a delimiter: whatever the arguments \<open>middle\<close> after
  it are, further \<^verbatim>\<open>--\<close> tokens among them or not, the last argument \<open>x\<close> is the
  opened URL, also when \<open>x\<close> is \<^verbatim>\<open>--\<close>; on the arguments \<^verbatim>\<open>app -- --\<close> the opened
  URL is the string \<^verbatim>\<open>--\<close>.
\<close>

theorem processArguments_later_delimiter_overwrites:
  "(''--'' \<notin> set before \<longrightarrow>
      openedUrl (processArguments (L\<lparr> arguments := before @ ''--'' # middle @ [x] \<rparr>)) = x)
   \<and> openedUrl (processArguments ((Create 3 [''app'', ''--'', ''--''])
        \<lparr> arguments := [''app'', ''--'', ''--''] \<rparr>)) = ''--''"
  by (simp add: processArguments_def processArguments_loop_split processArguments_loop_True
        Create_def)

theorem processArguments_later_delimiter_overwrites_witness:
  "''--'' \<notin> set [''app'', ''-x''] \<and>
   openedUrl (processArguments ((Create 5 [''app'', ''-x'', ''--'', ''url'', ''--''])
      \<lparr> arguments := [''app'', ''-x''] @ ''--'' # [''url''] @ [''--''] \<rparr>)) = ''--''"
  using processArguments_later_delimiter_overwrites
    [where before = "[''app'', ''-x'']" and middle = "[''url'']" and x = "''--''"
       and L = "Create 5 [''app'', ''-x'', ''--'', ''url'', ''--'']"]
  by simp

subsection \<open>The arguments forwarded to the sandbox\<close>

lemma FilteredCommandLineArguments_value:
  "nat argc0 \<le> length argv0 \<Longrightarrow>
   FilteredCommandLineArguments argc0 argv0 =
     Inr \<lparr> fc_count = (if argc0 \<le> 0 then 0 else 1),
           fc_arguments = (if argc0 \<le> 0 then [None, None] else [Some (argv0 ! 0), None]) \<rparr>"
  by (cases argv0)
     (auto simp: FilteredCommandLineArguments_def std_clamp_def kForwardArgumentCount_def
        copy_arguments.simps numeral_2_eq_2)

text \<open>
  C5. For an argument vector that holds at least \<open>argc\<close> entries, the constructor
  returns; the count is \<open>min argc 1\<close> clamped into \<open>[0, 1]\<close>; the first \<open>count\<close>
  forwarded entries are the first \<open>count\<close> entries of \<open>argv\<close>, in order; and with
  \<open>argc \<ge> 1\<close> the entry \<open>argv[0]\<close> is forwarded.
\<close>

theorem FilteredCommandLineArguments_clamped_prefix:
  assumes "nat argc0 \<le> length argv0"
  shows "\<exists>F. FilteredCommandLineArguments argc0 argv0 = Inr F
           \<and> executeApplication ((Create argc0 argv0)) = Inr F
           \<and> fc_count F = std_clamp (min argc0 1) 0 1
           \<and> 0 \<le> fc_count F \<and> fc_count F \<le> 1
           \<and> take (nat (fc_count F)) (fc_arguments F) = map Some (take (nat (fc_count F)) argv0)
           \<and> (1 \<le> argc0 \<longrightarrow> fc_count F = 1 \<and> fc_arguments F ! 0 = Some (argv0 ! 0))"
  using assms
  by (cases argv0)
     (auto simp: FilteredCommandLineArguments_value std_clamp_def executeApplication_def Create_def)

theorem FilteredCommandLineArguments_clamped_prefix_witness:
  "nat 3 \<le> length [''wallet'', ''--'', ''ton://x'']
   \<and> (\<exists>F. FilteredCommandLineArguments 3 [''wallet'', ''--'', ''ton://x''] = Inr F
         \<and> fc_count F = 1 \<and> fc_arguments F ! 0 = Some ''wallet'')"
  using FilteredCommandLineArguments_clamped_prefix [of 3 "[''wallet'', ''--'', ''ton://x'']"]
  by auto

section \<open>The loop of the writability probe\<close>

lemma open_failed_unchanged:
  "\<not> fst (QFile_open_WriteOnly fs p) \<Longrightarrow> snd (QFile_open_WriteOnly fs p) = fs"
  by (simp add: QFile_open_WriteOnly_def split: if_splits)

lemma open_remove_effect:
  "fst (QFile_open_WriteOnly fs p) \<Longrightarrow>
   QFile_remove (QFile_close (snd (QFile_open_WriteOnly fs p)) p) p = fs
   \<or> (p \<in> files fs \<and> p \<notin> dirs fs \<and> may_write fs p \<and> may_remove fs p
       \<and> QFile_remove (QFile_close (snd (QFile_open_WriteOnly fs p)) p) p
           = fs\<lparr> files := files fs - {p} \<rparr>)
   \<or> (p \<notin> files fs \<and> p \<notin> dirs fs \<and> may_create fs p \<and> \<not> may_remove fs p
       \<and> QFile_remove (QFile_close (snd (QFile_open_WriteOnly fs p)) p) p
           = fs\<lparr> files := insert p (files fs) \<rparr>)"
  by (auto simp: QFile_open_WriteOnly_def QFile_remove_def QFile_close_def split: if_splits)

lemma open_remove_again:
  "fst (QFile_open_WriteOnly fs p) \<Longrightarrow>
   may_remove fs p = may_create fs p \<Longrightarrow>
   fs' = QFile_remove (QFile_close (snd (QFile_open_WriteOnly fs p)) p) p \<Longrightarrow>
   fst (QFile_open_WriteOnly fs' p)
   \<and> QFile_remove (QFile_close (snd (QFile_open_WriteOnly fs' p)) p) p = fs'"
  by (auto simp: QFile_open_WriteOnly_def QFile_remove_def QFile_close_def split: if_splits)

lemma blocked_after_removal:
  "\<not> fst (QFile_open_WriteOnly fs p) \<Longrightarrow> QFile_exists fs p \<Longrightarrow>
   fs' = fs \<or> (q \<in> files fs \<and> q \<notin> dirs fs \<and> may_write fs q
                \<and> fs' = fs\<lparr> files := files fs - {q} \<rparr>) \<Longrightarrow>
   \<not> fst (QFile_open_WriteOnly fs' p) \<and> QFile_exists fs' p"
  by (auto simp: QFile_open_WriteOnly_def QFile_exists_def QFileInfo_exists_def
        split: if_splits)

lemma probe_loop_returns:
  "index < INT_MAX \<Longrightarrow>
   \<exists>r fs' n. probe_loop dataPath fs index = Inr (r, fs', n) \<and> index < n \<and> n \<le> INT_MAX"
proof (induction dataPath fs index rule: probe_loop.induct)
  case (1 dataPath fs index)
  let ?t = "dataPath @ ''/temp'' @ QString_number (index + 1)"
  let ?opened = "QFile_open_WriteOnly fs ?t"
  show ?case
  proof (cases "fst ?opened \<or> \<not> QFile_exists (snd ?opened) ?t \<or> index + 1 = INT_MAX")
    case True
    with "1.prems" show ?thesis
      by (subst probe_loop.simps) (auto simp: Let_def)
  next
    case False
    with "1.prems" have "index + 1 < INT_MAX" by simp
    with "1.IH" [OF _ refl refl refl] False "1.prems"
    obtain r fs' n where
      "probe_loop dataPath (snd ?opened) (index + 1) = Inr (r, fs', n)" "index + 1 < n" "n \<le> INT_MAX"
      by auto
    with False "1.prems" show ?thesis
      by (subst probe_loop.simps) (auto simp: Let_def)
  qed
qed

lemma probe_loop_exhausted:
  "index < INT_MAX \<Longrightarrow>
   \<forall>k. index < k \<and> k \<le> INT_MAX \<longrightarrow>
        \<not> fst (QFile_open_WriteOnly fs (dataPath @ ''/temp'' @ QString_number k))
        \<and> QFile_exists fs (dataPath @ ''/temp'' @ QString_number k) \<Longrightarrow>
   probe_loop dataPath fs index = Inr (False, fs, INT_MAX)"
proof (induction dataPath fs index rule: probe_loop.induct)
  case (1 dataPath fs index)
  let ?t = "dataPath @ ''/temp'' @ QString_number (index + 1)"
  let ?opened = "QFile_open_WriteOnly fs ?t"
  from "1.prems" have closed: "\<not> fst ?opened" and there: "QFile_exists fs ?t"
    by simp_all
  from closed have same: "snd ?opened = fs"
    by (rule open_failed_unchanged)
  show ?case
  proof (cases "index + 1 = INT_MAX")
    case True
    with closed there same "1.prems"(1) show ?thesis
      by (subst probe_loop.simps) (simp add: Let_def)
  next
    case False
    with "1.prems"(1) have less: "index + 1 < INT_MAX" by simp
    have "probe_loop dataPath (snd ?opened) (index + 1) = Inr (False, snd ?opened, INT_MAX)"
      using "1.IH" [OF _ refl refl refl] closed there same False "1.prems" less
      by simp
    with closed there same False "1.prems"(1) show ?thesis
      by (subst probe_loop.simps) (simp add: Let_def)
  qed
qed

lemma probe_loop_opened:
  assumes "\<not> INT_MAX \<le> index"
    and "fst (QFile_open_WriteOnly fs (dataPath @ ''/temp'' @ QString_number (index + 1)))"
  shows "probe_loop dataPath fs index =
           Inr (True,
             QFile_remove
               (QFile_close
                  (snd (QFile_open_WriteOnly fs (dataPath @ ''/temp'' @ QString_number (index + 1))))
                  (dataPath @ ''/temp'' @ QString_number (index + 1)))
               (dataPath @ ''/temp'' @ QString_number (index + 1)),
             index + 1)"
  using assms by (subst probe_loop.simps) (simp add: Let_def)

lemma probe_loop_stopped:
  assumes "\<not> INT_MAX \<le> index"
    and "\<not> fst (QFile_open_WriteOnly fs (dataPath @ ''/temp'' @ QString_number (index + 1)))"
    and "\<not> QFile_exists fs (dataPath @ ''/temp'' @ QString_number (index + 1))
          \<or> index + 1 = INT_MAX"
  shows "probe_loop dataPath fs index = Inr (False, fs, index + 1)"
proof -
  from assms(2) have "snd (QFile_open_WriteOnly fs (dataPath @ ''/temp'' @ QString_number (index + 1))) = fs"
    by (rule open_failed_unchanged)
  with assms show ?thesis
    by (subst probe_loop.simps) (simp add: Let_def del: append.simps)
qed

lemma probe_loop_continued:
  assumes "\<not> INT_MAX \<le> index"
    and "\<not> fst (QFile_open_WriteOnly fs (dataPath @ ''/temp'' @ QString_number (index + 1)))"
    and "QFile_exists fs (dataPath @ ''/temp'' @ QString_number (index + 1))"
    and "index + 1 \<noteq> INT_MAX"
  shows "probe_loop dataPath fs index = probe_loop dataPath fs (index + 1)"
proof -
  from assms(2) have "snd (QFile_open_WriteOnly fs (dataPath @ ''/temp'' @ QString_number (index + 1))) = fs"
    by (rule open_failed_unchanged)
  with assms show ?thesis
    by (subst probe_loop.simps) (simp add: Let_def del: append.simps)
qed

lemma probe_loop_bound:
  "probe_loop dataPath fs index = Inr x \<Longrightarrow> \<not> INT_MAX \<le> index"
  by (subst (asm) probe_loop.simps) (simp split: if_splits)

lemma probe_loop_effect:
  "probe_loop dataPath fs index = Inr (r, fs', n) \<Longrightarrow>
   fs' = fs
   \<or> (r \<and> dataPath @ ''/temp'' @ QString_number n \<in> files fs
      \<and> dataPath @ ''/temp'' @ QString_number n \<notin> dirs fs
      \<and> may_write fs (dataPath @ ''/temp'' @ QString_number n)
      \<and> may_remove fs (dataPath @ ''/temp'' @ QString_number n)
      \<and> fs' = fs\<lparr> files := files fs - {dataPath @ ''/temp'' @ QString_number n} \<rparr>)
   \<or> (r \<and> dataPath @ ''/temp'' @ QString_number n \<notin> files fs
      \<and> dataPath @ ''/temp'' @ QString_number n \<notin> dirs fs
      \<and> may_create fs (dataPath @ ''/temp'' @ QString_number n)
      \<and> \<not> may_remove fs (dataPath @ ''/temp'' @ QString_number n)
      \<and> fs' = fs\<lparr> files := insert (dataPath @ ''/temp'' @ QString_number n) (files fs) \<rparr>)"
proof (induction dataPath fs index arbitrary: r fs' n rule: probe_loop.induct)
  case (1 dataPath fs index)
  let ?t = "dataPath @ ''/temp'' @ QString_number (index + 1)"
  let ?opened = "QFile_open_WriteOnly fs ?t"
  from "1.prems" have bound: "\<not> INT_MAX \<le> index"
    by (rule probe_loop_bound)
  show ?case
  proof (cases "fst ?opened")
    case True
    from "1.prems" have "Inr (r, fs', n) = probe_loop dataPath fs index"
      by (rule sym)
    also note probe_loop_opened [OF bound True]
    finally have "r" "n = index + 1" "fs' = QFile_remove (QFile_close (snd ?opened) ?t) ?t"
      by blast+
    with open_remove_effect [OF True] show ?thesis
      by auto
  next
    case False
    then have same: "snd ?opened = fs"
      by (rule open_failed_unchanged)
    show ?thesis
    proof (cases "\<not> QFile_exists fs ?t \<or> index + 1 = INT_MAX")
      case True
      from "1.prems" probe_loop_stopped [OF bound False True] show ?thesis
        by simp
    next
      case stay: False
      then have there: "QFile_exists fs ?t" and more: "index + 1 \<noteq> INT_MAX"
        by simp_all
      from "1.prems" probe_loop_continued [OF bound False there more]
      have "probe_loop dataPath fs (index + 1) = Inr (r, fs', n)"
        by simp
      with "1.IH" [OF bound refl refl refl False _ more, of r fs' n] there same
      show ?thesis
        by simp
    qed
  qed
qed

text \<open>
  Where the right to delete an entry is the right to create it, the loop
  started again on the file system it left makes the same iterations.
\<close>

lemma probe_loop_again:
  "probe_loop dataPath fs index = Inr (r, fs', n) \<Longrightarrow>
   \<forall>p. may_remove fs p = may_create fs p \<Longrightarrow>
   probe_loop dataPath fs' index = Inr (r, fs', n)"
proof (induction dataPath fs index arbitrary: r fs' n rule: probe_loop.induct)
  case (1 dataPath fs index)
  let ?t = "dataPath @ ''/temp'' @ QString_number (index + 1)"
  let ?opened = "QFile_open_WriteOnly fs ?t"
  note call = "1.prems"(1) and rights = "1.prems"(2)
  from call have bound: "\<not> INT_MAX \<le> index"
    by (rule probe_loop_bound)
  show ?case
  proof (cases "fst ?opened")
    case True
    from call have "Inr (r, fs', n) = probe_loop dataPath fs index"
      by (rule sym)
    also note probe_loop_opened [OF bound True]
    finally have r: "r" and n: "n = index + 1"
      and fs': "fs' = QFile_remove (QFile_close (snd ?opened) ?t) ?t"
      by blast+
    from rights have "may_remove fs ?t = may_create fs ?t"
      by blast
    with True have "fst (QFile_open_WriteOnly fs' ?t)
        \<and> QFile_remove (QFile_close (snd (QFile_open_WriteOnly fs' ?t)) ?t) ?t = fs'"
      using fs' by (rule open_remove_again)
    with probe_loop_opened [OF bound, of fs' dataPath] r n show ?thesis
      by simp
  next
    case False
    then have same: "snd ?opened = fs"
      by (rule open_failed_unchanged)
    show ?thesis
    proof (cases "\<not> QFile_exists fs ?t \<or> index + 1 = INT_MAX")
      case True
      from call probe_loop_stopped [OF bound False True] have "fs' = fs"
        by simp
      with call show ?thesis
        by simp
    next
      case stay: False
      then have there: "QFile_exists fs ?t" and more: "index + 1 \<noteq> INT_MAX"
        by simp_all
      from call probe_loop_continued [OF bound False there more]
      have next_call: "probe_loop dataPath fs (index + 1) = Inr (r, fs', n)"
        by simp
      with "1.IH" [OF bound refl refl refl False _ more, of r fs' n] there same rights
      have again: "probe_loop dataPath fs' (index + 1) = Inr (r, fs', n)"
        by simp
      from probe_loop_effect [OF next_call] rights
      have "fs' = fs \<or> (dataPath @ ''/temp'' @ QString_number n \<in> files fs
          \<and> dataPath @ ''/temp'' @ QString_number n \<notin> dirs fs
          \<and> may_write fs (dataPath @ ''/temp'' @ QString_number n)
          \<and> fs' = fs\<lparr> files := files fs - {dataPath @ ''/temp'' @ QString_number n} \<rparr>)"
        by blast
      with False there
      have "\<not> fst (QFile_open_WriteOnly fs' ?t) \<and> QFile_exists fs' ?t"
        by (rule blocked_after_removal)
      with probe_loop_continued [OF bound _ _ more, of fs' dataPath] again show ?thesis
        by simp
    qed
  qed
qed

lemma zero_less_INT_MAX: "0 < INT_MAX"
  by (simp add: INT_MAX_def)

lemma canWorkInExecutablePath_returns:
  "\<exists>r fs'. canWorkInExecutablePath fs L = Inr (r, fs')"
proof -
  let ?d = "executablePath L @ ''data''"
  obtain r fs' n where "probe_loop ?d (snd (dataPath_missing fs ?d)) 0 = Inr (r, fs', n)"
    using probe_loop_returns [OF zero_less_INT_MAX] by blast
  then show ?thesis
    by (auto simp: canWorkInExecutablePath_def Let_def)
qed

section \<open>The working path\<close>

text \<open>
  C1. If \<^verbatim>\<open>_executablePath + "WalletForcePortable"\<close> is a directory, then for every
  build configuration (every combination of the preprocessor symbols) and every
  file system, writable or not, \<^verbatim>\<open>computeWorkingPathBase\<close> returns that path
  followed by \<^verbatim>\<open>/\<close>, and leaves the file system as it was.
\<close>
theorem computeWorkingPathBase_portable:
  assumes "QDir_exists fs (executablePath L @ ''WalletForcePortable'')"
  shows "computeWorkingPathBase cfg fs L
           = Inr (executablePath L @ ''WalletForcePortable'' @ ''/'', fs)
         \<and> endsWith (executablePath L @ ''WalletForcePortable'' @ ''/'') CHR ''/''"
  using assms
  by (simp add: computeWorkingPathBase_def checkPortablePath_def endsWith_def)

theorem computeWorkingPathBase_portable_witness:
  "QDir_exists portable_fs (executablePath app_launcher @ ''WalletForcePortable'')
   \<and> canWorkInExecutablePath portable_fs app_launcher = Inr (False, portable_fs)
   \<and> computeWorkingPathBase windows_release portable_fs app_launcher
       = Inr (''/app/WalletForcePortable/'', portable_fs)"
proof -
  have marker: "QDir_exists portable_fs (executablePath app_launcher @ ''WalletForcePortable'')"
    by (simp add: QDir_exists_def portable_fs_def app_launcher_def)
  have denied: "canWorkInExecutablePath portable_fs app_launcher = Inr (False, portable_fs)"
    by (simp add: canWorkInExecutablePath_def dataPath_missing_def QDir_exists_def
          QDir_mkpath_def portable_fs_def app_launcher_def)
  from computeWorkingPathBase_portable [OF marker, of windows_release] marker denied
  show ?thesis
    by (simp add: app_launcher_def)
qed

text \<open>
  C2, as the claim states it, fails: in a debug build of the store variant for
  macOS without a portable marker the base is the app-data path, which is not
  the executable path.
\<close>
theorem computeWorkingPathBase_mac_store_debug_counterexample:
  "Q_OS_MAC mac_store_debug \<and> OS_MAC_STORE mac_store_debug \<and> DEBUG mac_store_debug
   \<and> \<not> QDir_exists plain_fs (executablePath app_launcher @ ''WalletForcePortable'')
   \<and> computeWorkingPathBase mac_store_debug plain_fs app_launcher
       = Inr (appDataPath app_launcher, plain_fs)
   \<and> appDataPath app_launcher \<noteq> executablePath app_launcher"
  by (simp add: computeWorkingPathBase_def checkPortablePath_def QDir_exists_def
        mac_store_debug_def plain_fs_def app_launcher_def)

text \<open>
  C2, amended. On macOS and Linux without a portable marker the base is the
  executable path in a debug build that is not the store variant, and the
  app-data path otherwise: the store variant uses the app-data path in debug and
  in release builds alike.
\<close>

theorem computeWorkingPathBase_unix:
  assumes "Q_OS_MAC cfg \<or> Q_OS_LINUX cfg"
    and "\<not> QDir_exists fs (executablePath L @ ''WalletForcePortable'')"
  shows "computeWorkingPathBase cfg fs L =
           Inr (if DEBUG cfg \<and> \<not> OS_MAC_STORE cfg then executablePath L else appDataPath L, fs)"
  using assms
  by (simp add: computeWorkingPathBase_def checkPortablePath_def)

theorem computeWorkingPathBase_unix_witness:
  "(Q_OS_MAC mac_store_release \<or> Q_OS_LINUX mac_store_release)
   \<and> \<not> QDir_exists plain_fs (executablePath app_launcher @ ''WalletForcePortable'')
   \<and> computeWorkingPathBase mac_store_release plain_fs app_launcher = Inr (''/home/'', plain_fs)
   \<and> computeWorkingPathBase linux_debug plain_fs app_launcher = Inr (''/app/'', plain_fs)"
proof -
  have unix: "Q_OS_MAC mac_store_release \<or> Q_OS_LINUX mac_store_release"
    and unix': "Q_OS_MAC linux_debug \<or> Q_OS_LINUX linux_debug"
    by (simp_all add: mac_store_release_def linux_debug_def)
  have bare: "\<not> QDir_exists plain_fs (executablePath app_launcher @ ''WalletForcePortable'')"
    by (simp add: QDir_exists_def plain_fs_def app_launcher_def)
  from computeWorkingPathBase_unix [OF unix bare] computeWorkingPathBase_unix [OF unix' bare]
    unix bare
  show ?thesis
    by (simp add: mac_store_release_def linux_debug_def app_launcher_def)
qed

section \<open>The writability probe\<close>

text \<open>
  C6. If the data directory is there once the first condition of
  \<^verbatim>\<open>canWorkInExecutablePath\<close> has been evaluated (it existed, or \<^verbatim>\<open>mkpath\<close> made
  it), and the file \<^verbatim>\<open>salt\<close> exists in it, then the function returns true and
  the file system is the one that first condition left: no file has been
  created or removed.
\<close>
theorem canWorkInExecutablePath_salt:
  assumes "dataPath_missing fs (executablePath L @ ''data'') = (False, fs1)"
    and "QFileInfo_exists fs1 ((executablePath L @ ''data'') @ ''/salt'')"
  shows "canWorkInExecutablePath fs L = Inr (True, fs1) \<and> files fs1 = files fs"
  using assms
  by (auto simp: canWorkInExecutablePath_def dataPath_missing_def QDir_mkpath_def Let_def
        split: if_splits)

theorem canWorkInExecutablePath_salt_witness:
  "dataPath_missing salted_fs (executablePath app_launcher @ ''data'') = (False, salted_fs)
   \<and> QFileInfo_exists salted_fs ((executablePath app_launcher @ ''data'') @ ''/salt'')
   \<and> canWorkInExecutablePath salted_fs app_launcher = Inr (True, salted_fs)"
proof -
  have there: "dataPath_missing salted_fs (executablePath app_launcher @ ''data'') = (False, salted_fs)"
    by (simp add: dataPath_missing_def QDir_exists_def salted_fs_def app_launcher_def)
  have salt: "QFileInfo_exists salted_fs ((executablePath app_launcher @ ''data'') @ ''/salt'')"
    by (simp add: QFileInfo_exists_def salted_fs_def app_launcher_def)
  from canWorkInExecutablePath_salt [OF there salt] there salt show ?thesis
    by simp
qed

text \<open>
  C7. \<^verbatim>\<open>canWorkInExecutablePath\<close> returns for every file system and never overflows
  its counter; the loop started at counter 0 returns with a counter between 1
  and \<open>INT_MAX\<close>, which is the number of iterations it made; and if each of the
  names \<^verbatim>\<open>temp1\<close> to \<^verbatim>\<open>temp2147483647\<close> exists and cannot be opened for writing,
  the loop returns false at counter \<open>INT_MAX\<close>, and so does the function.
\<close>
theorem canWorkInExecutablePath_terminates:
  "(\<exists>r fs'. canWorkInExecutablePath fs L = Inr (r, fs'))
   \<and> (\<exists>r fs' n. probe_loop dataPath fs 0 = Inr (r, fs', n) \<and> 1 \<le> n \<and> n \<le> INT_MAX)
   \<and> ((\<forall>k. 1 \<le> k \<and> k \<le> INT_MAX \<longrightarrow>
          \<not> fst (QFile_open_WriteOnly fs (dataPath @ ''/temp'' @ QString_number k))
          \<and> QFile_exists fs (dataPath @ ''/temp'' @ QString_number k))
        \<longrightarrow> probe_loop dataPath fs 0 = Inr (False, fs, INT_MAX))
   \<and> (QDir_exists fs (executablePath L @ ''data'')
        \<and> \<not> QFileInfo_exists fs ((executablePath L @ ''data'') @ ''/salt'')
        \<and> (\<forall>k. 1 \<le> k \<and> k \<le> INT_MAX \<longrightarrow>
          \<not> fst (QFile_open_WriteOnly fs ((executablePath L @ ''data'') @ ''/temp'' @ QString_number k))
          \<and> QFile_exists fs ((executablePath L @ ''data'') @ ''/temp'' @ QString_number k))
        \<longrightarrow> canWorkInExecutablePath fs L = Inr (False, fs))"
proof (intro conjI impI)
  show "\<exists>r fs'. canWorkInExecutablePath fs L = Inr (r, fs')"
    by (rule canWorkInExecutablePath_returns)
next
  from probe_loop_returns [OF zero_less_INT_MAX, of dataPath fs]
  show "\<exists>r fs' n. probe_loop dataPath fs 0 = Inr (r, fs', n) \<and> 1 \<le> n \<and> n \<le> INT_MAX"
    by auto
next
  assume "\<forall>k. 1 \<le> k \<and> k \<le> INT_MAX \<longrightarrow>
          \<not> fst (QFile_open_WriteOnly fs (dataPath @ ''/temp'' @ QString_number k))
          \<and> QFile_exists fs (dataPath @ ''/temp'' @ QString_number k)"
  then show "probe_loop dataPath fs 0 = Inr (False, fs, INT_MAX)"
    by (intro probe_loop_exhausted [OF zero_less_INT_MAX]) auto
next
  let ?d = "executablePath L @ ''data''"
  assume a: "QDir_exists fs ?d
        \<and> \<not> QFileInfo_exists fs (?d @ ''/salt'')
        \<and> (\<forall>k. 1 \<le> k \<and> k \<le> INT_MAX \<longrightarrow>
          \<not> fst (QFile_open_WriteOnly fs (?d @ ''/temp'' @ QString_number k))
          \<and> QFile_exists fs (?d @ ''/temp'' @ QString_number k))"
  then have "probe_loop ?d fs 0 = Inr (False, fs, INT_MAX)"
    by (intro probe_loop_exhausted [OF zero_less_INT_MAX]) auto
  with a show "canWorkInExecutablePath fs L = Inr (False, fs)"
    by (simp add: canWorkInExecutablePath_def dataPath_missing_def Let_def)
qed

theorem canWorkInExecutablePath_terminates_witness:
  "QDir_exists crowded_fs (executablePath app_launcher @ ''data'')
   \<and> \<not> QFileInfo_exists crowded_fs ((executablePath app_launcher @ ''data'') @ ''/salt'')
   \<and> probe_loop ''/app/data'' crowded_fs 0 = Inr (False, crowded_fs, INT_MAX)
   \<and> canWorkInExecutablePath crowded_fs app_launcher = Inr (False, crowded_fs)"
proof -
  have there: "QDir_exists crowded_fs (executablePath app_launcher @ ''data'')"
    by (simp add: QDir_exists_def crowded_fs_def app_launcher_def)
  have nosalt: "\<not> QFileInfo_exists crowded_fs ((executablePath app_launcher @ ''data'') @ ''/salt'')"
    by (simp add: QFileInfo_exists_def crowded_fs_def app_launcher_def)
  have taken: "\<forall>k. 1 \<le> k \<and> k \<le> INT_MAX \<longrightarrow>
      \<not> fst (QFile_open_WriteOnly crowded_fs (''/app/data'' @ ''/temp'' @ QString_number k))
      \<and> QFile_exists crowded_fs (''/app/data'' @ ''/temp'' @ QString_number k)"
    by (simp add: QFile_open_WriteOnly_def QFile_exists_def QFileInfo_exists_def crowded_fs_def)
  have path: "executablePath app_launcher @ ''data'' = ''/app/data''"
    by (simp add: app_launcher_def)
  from canWorkInExecutablePath_terminates [of crowded_fs app_launcher "''/app/data''"]
    there nosalt taken path
  show ?thesis
    by simp
qed

subsection \<open>One call and the next\<close>

lemma dataPath_missing_failed:
  "fst (dataPath_missing fs d) \<Longrightarrow> snd (dataPath_missing fs d) = fs"
  by (auto simp: dataPath_missing_def QDir_mkpath_def Let_def split: if_splits)

lemma dataPath_missing_made:
  "\<not> fst (dataPath_missing fs d) \<Longrightarrow>
   d \<in> dirs (snd (dataPath_missing fs d))
   \<and> (snd (dataPath_missing fs d) = fs
        \<or> (\<not> QDir_exists fs d \<and> snd (dataPath_missing fs d) = fs\<lparr> dirs := insert d (dirs fs) \<rparr>))"
  by (auto simp: dataPath_missing_def QDir_mkpath_def QDir_exists_def Let_def split: if_splits)

lemma dataPath_missing_there:
  "d \<in> dirs fs \<Longrightarrow> dataPath_missing fs d = (False, fs)"
  by (simp add: dataPath_missing_def QDir_exists_def)

lemma canWorkInExecutablePath_unfold:
  "d = executablePath L @ ''data'' \<Longrightarrow>
   canWorkInExecutablePath fs L =
     (if fst (dataPath_missing fs d) then Inr (False, snd (dataPath_missing fs d))
      else if QFileInfo_exists (snd (dataPath_missing fs d)) (d @ ''/salt'')
      then Inr (True, snd (dataPath_missing fs d))
      else (case probe_loop d (snd (dataPath_missing fs d)) 0 of
              Inl e \<Rightarrow> Inl e
            | Inr (r, fs', index) \<Rightarrow> Inr (r, fs')))"
  by (simp add: canWorkInExecutablePath_def Let_def)

text \<open>What one call leaves behind, with the data path as a variable.\<close>

lemma canWorkInExecutablePath_cases:
  assumes d: "d = executablePath L @ ''data''"
    and call: "canWorkInExecutablePath fs L = Inr (r, fs')"
  obtains
    (failed) "\<not> r" "fs' = fs"
  | (trusted) fs1 where "r" "fs' = fs1" "d \<in> dirs fs1" "QFileInfo_exists fs1 (d @ ''/salt'')"
      "fs1 = fs \<or> (\<not> QDir_exists fs d \<and> fs1 = fs\<lparr> dirs := insert d (dirs fs) \<rparr>)"
  | (probed) fs1 n where "d \<in> dirs fs1" "\<not> QFileInfo_exists fs1 (d @ ''/salt'')"
      "fs1 = fs \<or> (\<not> QDir_exists fs d \<and> fs1 = fs\<lparr> dirs := insert d (dirs fs) \<rparr>)"
      "probe_loop d fs1 0 = Inr (r, fs', n)" "0 < n" "n \<le> INT_MAX"
proof -
  let ?m = "dataPath_missing fs d"
  note unfold = canWorkInExecutablePath_unfold [OF d, of fs]
  show thesis
  proof (cases "fst ?m")
    case True
    with call unfold dataPath_missing_failed [OF True] have "\<not> r" "fs' = fs"
      by simp_all
    then show thesis by (rule failed)
  next
    case False
    note made = dataPath_missing_made [OF False]
    show thesis
    proof (cases "QFileInfo_exists (snd ?m) (d @ ''/salt'')")
      case True
      with call unfold False have "r" "fs' = snd ?m"
        by simp_all
      with made True show thesis
        by (intro trusted [of "snd ?m"]) simp_all
    next
      case nosalt: False
      from probe_loop_returns [OF zero_less_INT_MAX, of d "snd ?m"]
      obtain r1 fs1 n where
        loop: "probe_loop d (snd ?m) 0 = Inr (r1, fs1, n)" and n: "0 < n" "n \<le> INT_MAX"
        by blast
      with call unfold False nosalt have "r = r1" "fs' = fs1"
        by simp_all
      with loop n made nosalt show thesis
        by (intro probed [of "snd ?m" n]) simp_all
    qed
  qed
qed

lemma canWorkInExecutablePath_effect_at:
  assumes d: "d = executablePath L @ ''data''"
    and call: "canWorkInExecutablePath fs L = Inr (r, fs')"
  shows "(dirs fs' = dirs fs \<or> (\<not> QDir_exists fs d \<and> dirs fs' = insert d (dirs fs)))
         \<and> (files fs' = files fs
             \<or> (\<exists>n. 1 \<le> n \<and> n \<le> INT_MAX \<and> r
                  \<and> d @ ''/temp'' @ QString_number n \<in> files fs
                  \<and> may_write fs (d @ ''/temp'' @ QString_number n)
                  \<and> may_remove fs (d @ ''/temp'' @ QString_number n)
                  \<and> files fs' = files fs - {d @ ''/temp'' @ QString_number n})
             \<or> (\<exists>n. 1 \<le> n \<and> n \<le> INT_MAX \<and> r
                  \<and> d @ ''/temp'' @ QString_number n \<notin> files fs
                  \<and> may_create fs (d @ ''/temp'' @ QString_number n)
                  \<and> \<not> may_remove fs (d @ ''/temp'' @ QString_number n)
                  \<and> files fs' = insert (d @ ''/temp'' @ QString_number n) (files fs)))
         \<and> may_create fs' = may_create fs \<and> may_remove fs' = may_remove fs
         \<and> may_write fs' = may_write fs"
  using d call
proof (cases rule: canWorkInExecutablePath_cases)
  case failed
  then show ?thesis by simp
next
  case (trusted fs1)
  then show ?thesis by auto
next
  case (probed fs1 n)
  let ?t = "d @ ''/temp'' @ QString_number n"
  from probed(3) have same: "files fs1 = files fs" "may_write fs1 = may_write fs"
      "may_create fs1 = may_create fs" "may_remove fs1 = may_remove fs"
    and dirs: "dirs fs1 = dirs fs \<or> (\<not> QDir_exists fs d \<and> dirs fs1 = insert d (dirs fs))"
    by auto
  from probed(5) have n: "1 \<le> n"
    by simp
  from probe_loop_effect [OF probed(4)]
  consider (unchanged) "fs' = fs1"
    | (removed) "r" "?t \<in> files fs1" "may_write fs1 ?t" "may_remove fs1 ?t"
        "fs' = fs1\<lparr> files := files fs1 - {?t} \<rparr>"
    | (left) "r" "?t \<notin> files fs1" "may_create fs1 ?t" "\<not> may_remove fs1 ?t"
        "fs' = fs1\<lparr> files := insert ?t (files fs1) \<rparr>"
    by blast
  then show ?thesis
  proof cases
    case unchanged
    with same dirs show ?thesis by simp
  next
    case removed
    with same have f: "r" "?t \<in> files fs" "may_write fs ?t" "may_remove fs ?t"
        "files fs' = files fs - {?t}"
      and rest: "dirs fs' = dirs fs1" "may_create fs' = may_create fs"
        "may_remove fs' = may_remove fs" "may_write fs' = may_write fs"
      by simp_all
    from f n probed(6) have "\<exists>n. 1 \<le> n \<and> n \<le> INT_MAX \<and> r
          \<and> d @ ''/temp'' @ QString_number n \<in> files fs
          \<and> may_write fs (d @ ''/temp'' @ QString_number n)
          \<and> may_remove fs (d @ ''/temp'' @ QString_number n)
          \<and> files fs' = files fs - {d @ ''/temp'' @ QString_number n}"
      by blast
    with rest dirs show ?thesis
      by simp
  next
    case left
    with same have f: "r" "?t \<notin> files fs" "may_create fs ?t" "\<not> may_remove fs ?t"
        "files fs' = insert ?t (files fs)"
      and rest: "dirs fs' = dirs fs1" "may_create fs' = may_create fs"
        "may_remove fs' = may_remove fs" "may_write fs' = may_write fs"
      by simp_all
    from f n probed(6) have "\<exists>n. 1 \<le> n \<and> n \<le> INT_MAX \<and> r
          \<and> d @ ''/temp'' @ QString_number n \<notin> files fs
          \<and> may_create fs (d @ ''/temp'' @ QString_number n)
          \<and> \<not> may_remove fs (d @ ''/temp'' @ QString_number n)
          \<and> files fs' = insert (d @ ''/temp'' @ QString_number n) (files fs)"
      by blast
    with rest dirs show ?thesis
      by simp
  qed
qed

lemma removal_keeps:
  "fs' = fs1 \<or> (\<exists>q. q \<in> files fs1 \<and> fs' = fs1\<lparr> files := files fs1 - {q} \<rparr>) \<Longrightarrow>
   dirs fs' = dirs fs1 \<and> files fs' \<subseteq> files fs1"
  by auto

lemma canWorkInExecutablePath_again_at:
  assumes d: "d = executablePath L @ ''data''"
    and call: "canWorkInExecutablePath fs L = Inr (r, fs')"
    and rights: "\<forall>p. may_remove fs p = may_create fs p"
  shows "canWorkInExecutablePath fs' L = Inr (r, fs') \<and> files fs' \<subseteq> files fs"
  using d call
proof (cases rule: canWorkInExecutablePath_cases)
  case failed
  with call show ?thesis by simp
next
  case (trusted fs1)
  from trusted(5) have "files fs1 = files fs"
    by auto
  with trusted show ?thesis
    by (simp add: canWorkInExecutablePath_unfold [OF d] dataPath_missing_there)
next
  case (probed fs1 n)
  from probed(3) rights have rights1: "\<forall>p. may_remove fs1 p = may_create fs1 p"
    by (elim disjE conjE) simp_all
  from probed(3) have same: "files fs1 = files fs"
    by (elim disjE conjE) simp_all
  from probe_loop_effect [OF probed(4)] rights1
  have "fs' = fs1 \<or> (\<exists>q. q \<in> files fs1 \<and> fs' = fs1\<lparr> files := files fs1 - {q} \<rparr>)"
    by blast
  then have keeps: "dirs fs' = dirs fs1 \<and> files fs' \<subseteq> files fs1"
    by (rule removal_keeps)
  with probed(1,2) have "d \<in> dirs fs'" and "\<not> QFileInfo_exists fs' (d @ ''/salt'')"
    unfolding QFileInfo_exists_def by blast+
  with probe_loop_again [OF probed(4) rights1] keeps same show ?thesis
    by (simp add: canWorkInExecutablePath_unfold [OF d] dataPath_missing_there)
qed

text \<open>
  C8, as the claim states it, fails, in three ways. In a data directory that
  already holds a file \<^verbatim>\<open>temp1\<close> which can be opened for writing, the first
  iteration opens that file, closes it and removes it: the directory existed
  before the call, and the file is gone after it. Where files may be created
  but not deleted, \<^verbatim>\<open>file.remove()\<close> fails, its result is ignored, and the probe
  file \<^verbatim>\<open>temp1\<close> stays. Where nothing may be created, but an existing \<^verbatim>\<open>temp1\<close>
  may be written and deleted, the first call returns true and removes it, and
  the second call on the directory as the first one left it returns false.
\<close>

theorem canWorkInExecutablePath_removes_counterexample:
  "QDir_exists stale_fs (executablePath app_launcher @ ''data'')
   \<and> ''/app/data/temp1'' \<in> files stale_fs
   \<and> canWorkInExecutablePath stale_fs app_launcher
       = Inr (True, stale_fs\<lparr> files := {''/app/Wallet''} \<rparr>)
   \<and> ''/app/data/temp1'' \<notin> files (stale_fs\<lparr> files := {''/app/Wallet''} \<rparr>)
   \<and> ''/app/data/temp1'' \<notin> files undeletable_fs
   \<and> canWorkInExecutablePath undeletable_fs app_launcher
       = Inr (True, undeletable_fs\<lparr> files := {''/app/data/temp1'', ''/app/Wallet''} \<rparr>)
   \<and> canWorkInExecutablePath uncreatable_fs app_launcher
       = Inr (True, uncreatable_fs\<lparr> files := {''/app/Wallet''} \<rparr>)
   \<and> canWorkInExecutablePath (uncreatable_fs\<lparr> files := {''/app/Wallet''} \<rparr>) app_launcher
       = Inr (False, uncreatable_fs\<lparr> files := {''/app/Wallet''} \<rparr>)"
proof -
  have "probe_loop ''/app/data'' stale_fs 0
      = Inr (True, stale_fs\<lparr> files := {''/app/Wallet''} \<rparr>, 1)"
    by (subst probe_loop_opened)
       (auto simp: INT_MAX_def QString_number_def number_digits.simps QFile_open_WriteOnly_def
          QFile_remove_def QFile_close_def stale_fs_def)
  then have stale: "canWorkInExecutablePath stale_fs app_launcher
       = Inr (True, stale_fs\<lparr> files := {''/app/Wallet''} \<rparr>)"
    by (simp add: canWorkInExecutablePath_def dataPath_missing_def QDir_exists_def
          QFileInfo_exists_def stale_fs_def app_launcher_def)
  have "probe_loop ''/app/data'' undeletable_fs 0
      = Inr (True, undeletable_fs\<lparr> files := {''/app/data/temp1'', ''/app/Wallet''} \<rparr>, 1)"
    by (subst probe_loop_opened)
       (auto simp: INT_MAX_def QString_number_def number_digits.simps QFile_open_WriteOnly_def
          QFile_remove_def QFile_close_def undeletable_fs_def)
  then have left: "canWorkInExecutablePath undeletable_fs app_launcher
       = Inr (True, undeletable_fs\<lparr> files := {''/app/data/temp1'', ''/app/Wallet''} \<rparr>)"
    by (simp add: canWorkInExecutablePath_def dataPath_missing_def QDir_exists_def
          QFileInfo_exists_def undeletable_fs_def app_launcher_def)
  have "probe_loop ''/app/data'' uncreatable_fs 0
      = Inr (True, uncreatable_fs\<lparr> files := {''/app/Wallet''} \<rparr>, 1)"
    by (subst probe_loop_opened)
       (auto simp: INT_MAX_def QString_number_def number_digits.simps QFile_open_WriteOnly_def
          QFile_remove_def QFile_close_def uncreatable_fs_def)
  then have first: "canWorkInExecutablePath uncreatable_fs app_launcher
       = Inr (True, uncreatable_fs\<lparr> files := {''/app/Wallet''} \<rparr>)"
    by (simp add: canWorkInExecutablePath_def dataPath_missing_def QDir_exists_def
          QFileInfo_exists_def uncreatable_fs_def app_launcher_def)
  have "probe_loop ''/app/data'' (uncreatable_fs\<lparr> files := {''/app/Wallet''} \<rparr>) 0
      = Inr (False, uncreatable_fs\<lparr> files := {''/app/Wallet''} \<rparr>, 1)"
    by (subst probe_loop_stopped)
       (auto simp: INT_MAX_def QString_number_def number_digits.simps QFile_open_WriteOnly_def
          QFile_exists_def QFileInfo_exists_def uncreatable_fs_def)
  then have second:
    "canWorkInExecutablePath (uncreatable_fs\<lparr> files := {''/app/Wallet''} \<rparr>) app_launcher
       = Inr (False, uncreatable_fs\<lparr> files := {''/app/Wallet''} \<rparr>)"
    by (simp add: canWorkInExecutablePath_def dataPath_missing_def QDir_exists_def
          QFileInfo_exists_def uncreatable_fs_def app_launcher_def)
  from stale left first second show ?thesis
    by (simp add: QDir_exists_def stale_fs_def undeletable_fs_def app_launcher_def)
qed

text \<open>
  C8, amended. For every file system and launcher the call returns. The
  directories after it are those before it, with the data directory added if it
  was missing. The files after it are those before it, with at most one
  exception \<^verbatim>\<open>tempN\<close> in the data directory, and then the result is true: either
  a file that was there, could be opened for writing and could be deleted has
  been removed, or a file that was not there has been created and could not be
  deleted. Where the right to delete an entry is the right to create it, the
  call leaves no file that was not there before, and a second call on the file
  system the first one left returns the same boolean and changes nothing more.
\<close>

theorem canWorkInExecutablePath_idempotent:
  "\<exists>r fs'. canWorkInExecutablePath fs L = Inr (r, fs')
     \<and> (dirs fs' = dirs fs
         \<or> (\<not> QDir_exists fs (executablePath L @ ''data'')
             \<and> dirs fs' = insert (executablePath L @ ''data'') (dirs fs)))
     \<and> (files fs' = files fs
         \<or> (\<exists>n. 1 \<le> n \<and> n \<le> INT_MAX \<and> r
              \<and> (executablePath L @ ''data'') @ ''/temp'' @ QString_number n \<in> files fs
              \<and> may_write fs ((executablePath L @ ''data'') @ ''/temp'' @ QString_number n)
              \<and> may_remove fs ((executablePath L @ ''data'') @ ''/temp'' @ QString_number n)
              \<and> files fs' =
                  files fs - {(executablePath L @ ''data'') @ ''/temp'' @ QString_number n})
         \<or> (\<exists>n. 1 \<le> n \<and> n \<le> INT_MAX \<and> r
              \<and> (executablePath L @ ''data'') @ ''/temp'' @ QString_number n \<notin> files fs
              \<and> may_create fs ((executablePath L @ ''data'') @ ''/temp'' @ QString_number n)
              \<and> \<not> may_remove fs ((executablePath L @ ''data'') @ ''/temp'' @ QString_number n)
              \<and> files fs' =
                  insert ((executablePath L @ ''data'') @ ''/temp'' @ QString_number n) (files fs)))
     \<and> ((\<forall>p. may_remove fs p = may_create fs p) \<longrightarrow>
          files fs' \<subseteq> files fs \<and> canWorkInExecutablePath fs' L = Inr (r, fs'))"
proof -
  obtain r fs' where first: "canWorkInExecutablePath fs L = Inr (r, fs')"
    using canWorkInExecutablePath_returns by blast
  from canWorkInExecutablePath_again_at [OF refl first]
    canWorkInExecutablePath_effect_at [OF refl first] first
  show ?thesis
    by blast
qed

theorem canWorkInExecutablePath_idempotent_witness:
  "(\<forall>p. may_remove stale_fs p = may_create stale_fs p)
   \<and> canWorkInExecutablePath stale_fs app_launcher
     = Inr (True, stale_fs\<lparr> files := {''/app/Wallet''} \<rparr>)
   \<and> canWorkInExecutablePath (stale_fs\<lparr> files := {''/app/Wallet''} \<rparr>) app_launcher
     = Inr (True, stale_fs\<lparr> files := {''/app/Wallet''} \<rparr>)"
proof -
  have rights: "\<forall>p. may_remove stale_fs p = may_create stale_fs p"
    by (simp add: stale_fs_def)
  have "probe_loop ''/app/data'' stale_fs 0
      = Inr (True, stale_fs\<lparr> files := {''/app/Wallet''} \<rparr>, 1)"
    by (subst probe_loop_opened)
       (auto simp: INT_MAX_def QString_number_def number_digits.simps QFile_open_WriteOnly_def
          QFile_remove_def QFile_close_def stale_fs_def)
  then have first: "canWorkInExecutablePath stale_fs app_launcher
       = Inr (True, stale_fs\<lparr> files := {''/app/Wallet''} \<rparr>)"
    by (simp add: canWorkInExecutablePath_def dataPath_missing_def QDir_exists_def
          QFileInfo_exists_def stale_fs_def app_launcher_def)
  from canWorkInExecutablePath_idempotent [of stale_fs app_launcher]
  obtain r fs' where call: "canWorkInExecutablePath stale_fs app_launcher = Inr (r, fs')"
    and again: "(\<forall>p. may_remove stale_fs p = may_create stale_fs p) \<longrightarrow>
          files fs' \<subseteq> files stale_fs \<and> canWorkInExecutablePath fs' app_launcher = Inr (r, fs')"
    by blast
  from call first have "r = True" and "fs' = stale_fs\<lparr> files := {''/app/Wallet''} \<rparr>"
    by simp_all
  with again rights
  have "canWorkInExecutablePath (stale_fs\<lparr> files := {''/app/Wallet''} \<rparr>) app_launcher
     = Inr (True, stale_fs\<lparr> files := {''/app/Wallet''} \<rparr>)"
    by blast
  with rights first show ?thesis
    by blast
qed

section \<open>Initialisation\<close>

lemma readArguments_loop_returns:
  "0 \<le> i \<Longrightarrow> i \<le> argc0 \<Longrightarrow> nat argc0 \<le> length argv0 \<Longrightarrow>
   \<exists>args. readArguments_loop P i argc0 argv0 result = Inr args"
proof (induction P i argc0 argv0 result rule: readArguments_loop.induct)
  case (1 P i argc0 argv0 result)
  show ?case
  proof (cases "i = argc0")
    case True
    then show ?thesis
      by (subst readArguments_loop.simps) simp
  next
    case False
    with "1.prems" have inside: "\<not> argc0 < i" "\<not> (i < 0 \<or> length argv0 \<le> nat i)"
      by auto
    from "1.IH" [OF False inside] "1.prems" False
    obtain args where
      "readArguments_loop P (i + 1) argc0 argv0 (result @ [FromUtf8Safe P (argv0 ! nat i)]) = Inr args"
      by auto
    with False inside show ?thesis
      by (subst readArguments_loop.simps) simp
  qed
qed

lemma readArguments_returns:
  "0 \<le> argc0 \<Longrightarrow> nat argc0 \<le> length argv0 \<Longrightarrow> \<exists>args. readArguments P argc0 argv0 = Inr args"
  using readArguments_loop_returns [of 0 argc0 argv0 P "[]"]
  by (simp add: readArguments_def)

lemma initExecutablePath_unresolved:
  "\<not> QFileInfo_exists fs
       (if isSymLink P (CurrentExecutablePath P (argc L) (argv L))
        then symLinkTarget P (CurrentExecutablePath P (argc L) (argv L))
        else CurrentExecutablePath P (argc L) (argv L)) \<Longrightarrow>
   initExecutablePath P fs L = L"
  by (simp add: initExecutablePath_def Let_def)

lemma initExecutablePath_path:
  "executablePath (initExecutablePath P fs L) = executablePath L
   \<or> endsWith (executablePath (initExecutablePath P fs L)) CHR ''/''"
  by (simp add: initExecutablePath_def Let_def endsWith_def)

lemma initExecutablePath_others:
  "appDataPath (initExecutablePath P fs L) = appDataPath L"
  "arguments (initExecutablePath P fs L) = arguments L"
  "openedUrl (initExecutablePath P fs L) = openedUrl L"
  "workingPath (initExecutablePath P fs L) = workingPath L"
  "argc (initExecutablePath P fs L) = argc L"
  "argv (initExecutablePath P fs L) = argv L"
  by (simp_all add: initExecutablePath_def Let_def)

lemma prepareSettings_paths:
  "executablePath (prepareSettings P fs L) = executablePath (initExecutablePath P fs L)"
  "executableName (prepareSettings P fs L) = executableName (initExecutablePath P fs L)"
  "endsWith (appDataPath (prepareSettings P fs L)) CHR ''/''"
  by (simp_all add: prepareSettings_def processArguments_def initAppDataPath_def Let_def
        endsWith_def)

lemma computeWorkingPathBase_cases:
  "computeWorkingPathBase cfg fs L = Inr (base, fs') \<Longrightarrow>
   base = executablePath L @ ''WalletForcePortable'' @ ''/''
   \<or> base = executablePath L \<or> base = appDataPath L"
  by (auto simp: computeWorkingPathBase_def checkPortablePath_def Let_def
        split: if_splits sum.splits)

lemma computeWorkingPathBase_returns:
  assumes "Q_OS_MAC cfg \<or> Q_OS_LINUX cfg \<or> OS_WIN_STORE cfg \<or> Q_OS_WIN cfg"
  shows "\<exists>base fs'. computeWorkingPathBase cfg fs L = Inr (base, fs')"
proof -
  obtain r fs1 where "canWorkInExecutablePath fs L = Inr (r, fs1)"
    using canWorkInExecutablePath_returns by blast
  with assms show ?thesis
    by (auto simp: computeWorkingPathBase_def Let_def)
qed

lemma init_unfold:
  "readArguments P c v = Inr args \<Longrightarrow>
   computeWorkingPathBase cfg fs (prepareSettings P fs ((Create c v)\<lparr> arguments := args \<rparr>))
     = Inr (base, fs') \<Longrightarrow>
   init cfg P fs (Create c v) =
     Inr ((prepareSettings P fs ((Create c v)\<lparr> arguments := args \<rparr>))
            \<lparr> workingPath := base @ ''data/'' \<rparr>, fs')"
  by (simp add: init_def initWorkingPath_def Create_def)

text \<open>
  C3, as the claim states it, fails: when the file that the platform reports as
  the running executable does not exist, \<^verbatim>\<open>_executablePath\<close> stays empty; a debug
  build for Linux then takes it as the base, which does not end with a
  separator, and the working path is the relative path \<^verbatim>\<open>data/\<close>.
\<close>
theorem init_workingPath_counterexample:
  "init linux_debug deleted_platform plain_fs (Create 1 [''Wallet''])
     = Inr ((Create 1 [''Wallet''])
              \<lparr> arguments := [''Wallet''], appDataPath := ''/home/'', workingPath := ''data/'' \<rparr>,
            plain_fs)
   \<and> computeWorkingPathBase linux_debug plain_fs
        (prepareSettings deleted_platform plain_fs ((Create 1 [''Wallet''])\<lparr> arguments := [''Wallet''] \<rparr>))
       = Inr ([], plain_fs)
   \<and> \<not> endsWith [] CHR ''/''"
  by (simp add: init_def initWorkingPath_def computeWorkingPathBase_def checkPortablePath_def
        prepareSettings_def processArguments_def initAppDataPath_def initExecutablePath_def
        readArguments_def readArguments_loop.simps QDir_exists_def QFileInfo_exists_def
        endsWith_def Create_def linux_debug_def deleted_platform_def plain_fs_def)

text \<open>
  C3, amended. For a launcher made by \<open>Create\<close> with a well-formed argument
  vector, on a configuration that defines one of the operating-system symbols,
  \<^verbatim>\<open>init\<close> returns; the working path is the base that \<^verbatim>\<open>computeWorkingPathBase\<close>
  returned, followed by \<^verbatim>\<open>data/\<close>; and that base ends with a separator, unless
  it is empty, which happens only when the executable path is empty (it could
  not be resolved).
\<close>

theorem init_workingPath:
  assumes "0 \<le> c" and "nat c \<le> length v"
    and "Q_OS_MAC cfg \<or> Q_OS_LINUX cfg \<or> OS_WIN_STORE cfg \<or> Q_OS_WIN cfg"
  shows "\<exists>L' fs' args base.
           init cfg P fs (Create c v) = Inr (L', fs')
           \<and> readArguments P c v = Inr args
           \<and> computeWorkingPathBase cfg fs
                (prepareSettings P fs ((Create c v)\<lparr> arguments := args \<rparr>)) = Inr (base, fs')
           \<and> workingPath L' = base @ ''data/''
           \<and> (endsWith base CHR ''/'' \<or> (base = [] \<and> executablePath L' = []))"
proof -
  from readArguments_returns [OF assms(1,2)] obtain args where
    args: "readArguments P c v = Inr args"
    by blast
  let ?L0 = "(Create c v)\<lparr> arguments := args \<rparr>"
  let ?L1 = "prepareSettings P fs ?L0"
  from computeWorkingPathBase_returns [OF assms(3)] obtain base fs' where
    base: "computeWorkingPathBase cfg fs ?L1 = Inr (base, fs')"
    by blast
  note run = init_unfold [OF args base]
  have exe: "executablePath ?L1 = [] \<or> endsWith (executablePath ?L1) CHR ''/''"
    using initExecutablePath_path [of P fs ?L0]
    by (simp add: prepareSettings_paths Create_def)
  have app: "endsWith (appDataPath ?L1) CHR ''/''"
    by (rule prepareSettings_paths)
  have portable: "endsWith (executablePath ?L1 @ ''WalletForcePortable'' @ ''/'') CHR ''/''"
    by (simp add: endsWith_def)
  from computeWorkingPathBase_cases [OF base] exe app portable
  have "endsWith base CHR ''/'' \<or> (base = [] \<and> executablePath ?L1 = [])"
    by auto
  with args base run show ?thesis
    by auto
qed

theorem init_workingPath_witness:
  "(0::int) \<le> 1 \<and> nat 1 \<le> length [''Wallet'']
   \<and> (Q_OS_MAC linux_release \<or> Q_OS_LINUX linux_release
       \<or> OS_WIN_STORE linux_release \<or> Q_OS_WIN linux_release)
   \<and> init linux_release deleted_platform plain_fs (Create 1 [''Wallet''])
     = Inr ((Create 1 [''Wallet''])
              \<lparr> arguments := [''Wallet''], appDataPath := ''/home/'', workingPath := ''/home/data/'' \<rparr>,
            plain_fs)
   \<and> computeWorkingPathBase linux_release plain_fs
        (prepareSettings deleted_platform plain_fs ((Create 1 [''Wallet''])\<lparr> arguments := [''Wallet''] \<rparr>))
       = Inr (''/home/'', plain_fs)
   \<and> endsWith ''/home/'' CHR ''/''"
proof -
  have wf: "(0::int) \<le> 1" "nat 1 \<le> length [''Wallet'']"
    by simp_all
  have os: "Q_OS_MAC linux_release \<or> Q_OS_LINUX linux_release
       \<or> OS_WIN_STORE linux_release \<or> Q_OS_WIN linux_release"
    by (simp add: linux_release_def)
  have run: "init linux_release deleted_platform plain_fs (Create 1 [''Wallet''])
     = Inr ((Create 1 [''Wallet''])
              \<lparr> arguments := [''Wallet''], appDataPath := ''/home/'', workingPath := ''/home/data/'' \<rparr>,
            plain_fs)"
    by (simp add: init_def initWorkingPath_def computeWorkingPathBase_def checkPortablePath_def
        prepareSettings_def processArguments_def initAppDataPath_def initExecutablePath_def
        readArguments_def readArguments_loop.simps QDir_exists_def QFileInfo_exists_def
        endsWith_def Create_def linux_release_def deleted_platform_def plain_fs_def)
  have args: "readArguments deleted_platform 1 [''Wallet''] = Inr [''Wallet'']"
    by (simp add: readArguments_def readArguments_loop.simps deleted_platform_def)
  from init_workingPath [OF wf os, of deleted_platform plain_fs] run args wf os show ?thesis
    by (auto simp: endsWith_def Create_def)
qed

subsection \<open>An executable path that cannot be resolved\<close>










end
